theory Spec2Isabelle
  imports Complex_Main "HOL-Library.Multiset"
begin

section \<open>Strings\<close>

text \<open>
  Python strings are modelled as \<^typ>\<open>string\<close>. The program's two regular expressions
  only accept ASCII characters in the positions they constrain. \<open>str.upper\<close> is modelled
  on ASCII, where Python maps \<open>a\<close>..\<open>z\<close> to \<open>A\<close>..\<open>Z\<close> and leaves every other character
  alone; a character beyond ASCII is left alone too, as Python leaves the characters of
  a script without letter case (cased letters beyond ASCII are outside the model).
\<close>

definition ascii_lowercase :: string where
  "ascii_lowercase = ''abcdefghijklmnopqrstuvwxyz''"

definition ascii_uppercase :: string where
  "ascii_uppercase = ''ABCDEFGHIJKLMNOPQRSTUVWXYZ''"

definition upper_char :: "char \<Rightarrow> char" where
  "upper_char c =
     (case map_of (zip ascii_lowercase ascii_uppercase) c of
        Some u \<Rightarrow> u
      | None \<Rightarrow> c)"

definition upper :: "string \<Rightarrow> string" where
  "upper s = map upper_char s"

text \<open>The line feed, which \<open>$\<close> of Python's \<open>re\<close> tolerates once at the very end.\<close>

definition LF :: char where
  "LF = CHR 0x0A"

text \<open>The character classes \<open>[0-9A-Fa-f]\<close>, \<open>[:-]\<close> and \<open>\d\<close>.\<close>

definition is_hex :: "char \<Rightarrow> bool" where
  "is_hex c \<longleftrightarrow> c \<in> set ''0123456789ABCDEFabcdef''"

definition is_sep :: "char \<Rightarrow> bool" where
  "is_sep c \<longleftrightarrow> c = CHR '':'' \<or> c = CHR ''-''"

definition is_digit :: "char \<Rightarrow> bool" where
  "is_digit c \<longleftrightarrow> c \<in> set ''0123456789''"

text \<open>
  \<open>$\<close> without \<open>re.MULTILINE\<close>: the end of the string, or the position right before a
  line feed that is the string's last character.
\<close>

definition at_end :: "string \<Rightarrow> bool" where
  "at_end s \<longleftrightarrow> s = [] \<or> s = [LF]"

text \<open>
  \<open>([0-9A-Fa-f]{2}[:-]){n}\<close>: consumes \<open>n\<close> groups and returns what is left. The three
  character classes of a group are tried in order on the next three characters; there is
  no alternative to backtrack into.
\<close>

fun mac_groups :: "nat \<Rightarrow> string \<Rightarrow> string option" where
  "mac_groups 0 s = Some s"
| "mac_groups (Suc n) (a # b # c # s) =
     (if is_hex a \<and> is_hex b \<and> is_sep c then mac_groups n s else None)"
| "mac_groups (Suc n) s = None"

text \<open>\<open>re.match(r'^([0-9A-Fa-f]{2}[:-]){5}([0-9A-Fa-f]{2})$', v)\<close>\<close>

definition mac_pattern :: "string \<Rightarrow> bool" where
  "mac_pattern v =
     (case mac_groups 5 v of
        None \<Rightarrow> False
      | Some r \<Rightarrow>
          (case r of
             a # b # rest \<Rightarrow> is_hex a \<and> is_hex b \<and> at_end rest
           | _ \<Rightarrow> False))"

text \<open>
  \<open>\d{1,3}\<close> is greedy; as a digit is never a dot, the run it takes is the longest run of
  at most three digits, and the match goes on only from there.
\<close>

definition digits_1_3 :: "string \<Rightarrow> string option" where
  "digits_1_3 s =
     (let run = takeWhile is_digit (take 3 s)
      in if run = [] then None else Some (drop (length run) s))"

fun ip_groups :: "nat \<Rightarrow> string \<Rightarrow> string option" where
  "ip_groups 0 s = Some s"
| "ip_groups (Suc n) s =
     (case digits_1_3 s of
        None \<Rightarrow> None
      | Some r \<Rightarrow>
          (case r of
             c # r' \<Rightarrow> if c = CHR ''.'' then ip_groups n r' else None
           | [] \<Rightarrow> None))"

text \<open>\<open>re.match(r'^(\d{1,3}\.){3}\d{1,3}$', v)\<close>\<close>

definition ip_pattern :: "string \<Rightarrow> bool" where
  "ip_pattern v =
     (case ip_groups 3 v of
        None \<Rightarrow> False
      | Some r \<Rightarrow>
          (case digits_1_3 r of
             None \<Rightarrow> False
           | Some rest \<Rightarrow> at_end rest))"

section \<open>Errors\<close>

text \<open>
  The kinds of failure. \<open>MissingRequired\<close> is a required field that is absent, and the
  validators' "please enter the MAC address"; \<open>InvalidFormat\<close> is a pattern that does not
  match; \<open>NullNotAllowed\<close> is a JSON null for a field declared \<open>str\<close>; \<open>OutOfRange\<close> is a
  query parameter outside its \<open>ge\<close>/\<open>le\<close> bounds. \<open>DuplicateKey\<close> and \<open>NotFound\<close> are the
  handlers' HTTP 400 and 404.
\<close>

datatype error =
  MissingRequired | InvalidFormat | NullNotAllowed | OutOfRange | DuplicateKey | NotFound

text \<open>
  A request fails in one of four ways: the framework refuses its parameters (one entry
  per offending field, all fields reported together), a handler raises
  \<open>HTTPException\<close>, the commit violates a NOT NULL column, or the database refuses a
  statement (an \<open>OFFSET\<close> beyond its integer range).
\<close>

datatype failure =
  ValidationError "(string \<times> error) list"
| HTTPException error
| IntegrityError
| DatabaseError

section \<open>Validation layer\<close>

text \<open>\<open>BoxBase.validate_mac\<close> (the non-null branch of \<open>BoxUpdate.validate_mac\<close> is the same code).\<close>

definition validate_mac :: "string \<Rightarrow> error + string" where
  "validate_mac v =
     (if v = [] then Inl MissingRequired
      else if \<not> mac_pattern v then Inl InvalidFormat
      else Inr (upper v))"

text \<open>\<open>BoxBase.validate_ip\<close>\<close>

definition validate_ip :: "string option \<Rightarrow> error + string option" where
  "validate_ip v =
     (case v of
        None \<Rightarrow> Inr None
      | Some s \<Rightarrow> if \<not> ip_pattern s then Inl InvalidFormat else Inr (Some s))"

text \<open>\<open>BoxBase.validate_process\<close>: a non-empty value is uppercased, an empty one is returned as it is.\<close>

definition validate_process :: "string \<Rightarrow> string" where
  "validate_process v = (if v \<noteq> [] then upper v else v)"

section \<open>The shapes of a MAC address\<close>

text \<open>
  Two descriptions of a MAC address string against which the validator is compared. Both
  read the string against the template \<open>XX:XX:XX:XX:XX:XX\<close>, where \<open>X\<close> stands for a
  hexadecimal digit: in \<open>mac_shape\<close> each of the five other positions holds a colon or a
  dash, chosen position by position; in \<open>spec_mac_format\<close>, which follows the
  specification's words, one separator is used throughout.
\<close>

text \<open>A string whose last character is a line feed.\<close>

definition ends_with_LF :: "string \<Rightarrow> bool" where
  "ends_with_LF v \<longleftrightarrow> v \<noteq> [] \<and> last v = LF"

definition mac_template :: string where
  "mac_template = ''XX:XX:XX:XX:XX:XX''"

definition fits :: "char \<Rightarrow> char \<Rightarrow> bool" where
  "fits t c = (if t = CHR ''X'' then is_hex c else is_sep c)"

definition mac_shape :: "string \<Rightarrow> bool" where
  "mac_shape v \<longleftrightarrow> list_all2 fits mac_template v"

definition fits_with :: "char \<Rightarrow> char \<Rightarrow> char \<Rightarrow> bool" where
  "fits_with sep t c = (if t = CHR ''X'' then is_hex c else c = sep)"

text \<open>
  The specification's format: six groups of two hex digits separated uniformly by \<open>:\<close> or
  uniformly by \<open>-\<close>.
\<close>

definition spec_mac_format :: "string \<Rightarrow> bool" where
  "spec_mac_format v \<longleftrightarrow>
     list_all2 (fits_with CHR '':'') mac_template v \<or> list_all2 (fits_with CHR ''-'') mac_template v"

text \<open>
  The specification's normal form: uppercase, with \<open>:\<close> as the separator.
\<close>

definition spec_normalize_mac :: "string \<Rightarrow> string" where
  "spec_normalize_mac v = map (\<lambda>c. if c = CHR ''-'' then CHR '':'' else c) (upper v)"

section \<open>The record store\<close>

text \<open>
  A point in time. \<open>datetime.utcnow()\<close> is a parameter \<open>utcnow\<close> of the operations that read
  the clock: \<open>utcnow k\<close> is what the \<open>k\<close>-th reading during the request returns.
\<close>

type_synonym datetime = int

text \<open>
  \<open>BoxBase\<close> holds the seven descriptive fields, \<open>BoxDB\<close> a row of table \<open>iot_boxes\<close>: the
  same fields with the primary key and the two timestamps (the shape of \<open>BoxResponse\<close>).
  A nullable column is an \<open>option\<close>; \<open>mac_address\<close> and \<open>process\<close> are NOT NULL. The fields
  \<open>id\<close> and \<open>note\<close> carry a prime, as both words are taken in Isabelle.
\<close>

record BoxBase =
  mac_address :: string
  ip_address :: "string option"
  main_equipment :: "string option"
  location :: "string option"
  process :: string
  manager :: "string option"
  note' :: "string option"

record BoxDB = BoxBase +
  id' :: int
  created_at :: datetime
  updated_at :: datetime

text \<open>
  The database: the rows of \<open>iot_boxes\<close> in primary-key order, and the next value of the
  autoincrement counter. Column lengths (\<open>String(17)\<close> and the like) are enforced by the
  database engine and are not part of the model.
\<close>

record database =
  iot_boxes :: "BoxDB list"
  auto_increment :: int

text \<open>
  A JSON request body with string or null values: \<open>body k = None\<close> when key \<open>k\<close> is absent,
  \<open>Some None\<close> when it is null, \<open>Some (Some s)\<close> when it is the string \<open>s\<close>.
\<close>

type_synonym json = "string \<rightharpoonup> string option"

text \<open>The value of an \<open>Optional[str] = None\<close> attribute after parsing.\<close>

definition attr :: "json \<Rightarrow> string \<Rightarrow> string option" where
  "attr body k = (case body k of None \<Rightarrow> None | Some v \<Rightarrow> v)"

text \<open>Python's truth value of an optional string: \<open>None\<close> and \<open>""\<close> are false.\<close>

definition truthy :: "string option \<Rightarrow> bool" where
  "truthy v = (case v of None \<Rightarrow> False | Some s \<Rightarrow> s \<noteq> [])"

subsection \<open>Request models\<close>

definition field_errors :: "string \<Rightarrow> error + 'a \<Rightarrow> (string \<times> error) list" where
  "field_errors k r = (case r of Inl e \<Rightarrow> [(k, e)] | Inr _ \<Rightarrow> [])"

text \<open>
  \<open>BoxCreate\<close> (that is \<open>BoxBase\<close>): \<open>mac_address\<close> and \<open>process\<close> are declared \<open>str\<close> with
  \<open>Field(...)\<close>, so an absent key and a null are refused before the validator runs. The
  errors of all fields are reported together.
\<close>

definition parse_BoxCreate :: "json \<Rightarrow> failure + BoxBase" where
  "parse_BoxCreate body =
     (let mac = (case body ''mac_address'' of
                   None \<Rightarrow> Inl MissingRequired
                 | Some None \<Rightarrow> Inl NullNotAllowed
                 | Some (Some v) \<Rightarrow> validate_mac v);
          ip = validate_ip (attr body ''ip_address'');
          proc = (case body ''process'' of
                    None \<Rightarrow> Inl MissingRequired
                  | Some None \<Rightarrow> Inl NullNotAllowed
                  | Some (Some v) \<Rightarrow> Inr (validate_process v))
      in case (mac, ip, proc) of
           (Inr m, Inr i, Inr p) \<Rightarrow>
             Inr \<lparr>mac_address = m, ip_address = i,
                  main_equipment = attr body ''main_equipment'',
                  location = attr body ''location'',
                  process = p,
                  manager = attr body ''manager'',
                  note' = attr body ''note''\<rparr>
         | _ \<Rightarrow>
             Inl (ValidationError
                   (field_errors ''mac_address'' mac @ field_errors ''ip_address'' ip @
                    field_errors ''process'' proc)))"

text \<open>
  \<open>BoxUpdate\<close>: every field is optional, and only \<open>mac_address\<close> and \<open>process\<close> have a
  validator. The result maps each key of the body to its validated value, so its domain
  is the set of fields the request provided (\<open>dict(exclude_unset=True)\<close>).
\<close>

definition parse_BoxUpdate :: "json \<Rightarrow> failure + json" where
  "parse_BoxUpdate body =
     (let mac = (case body ''mac_address'' of
                   Some (Some v) \<Rightarrow> map_sum id Some (validate_mac v)
                 | _ \<Rightarrow> Inr None);
          proc = (case body ''process'' of
                    Some (Some v) \<Rightarrow> Some (validate_process v)
                  | _ \<Rightarrow> None)
      in case mac of
           Inl e \<Rightarrow> Inl (ValidationError [(''mac_address'', e)])
         | Inr m \<Rightarrow>
             Inr (\<lambda>k. if k = ''mac_address'' \<and> body k \<noteq> None then Some m
                       else if k = ''process'' \<and> body k \<noteq> None then Some proc
                       else body k))"

subsection \<open>Queries\<close>

text \<open>
  \<open>column.contains(search)\<close> is the SQL comparison \<open>column LIKE '%' || search || '%'\<close>. \<open>LIKE\<close>
  is the database's operator: the search string is not escaped, so a \<open>%\<close> or \<open>_\<close> in it is
  a wildcard as well, and whether letter case counts is the collation's matter. The
  operations take the operator as a parameter \<open>like\<close>, applied to a column's value and
  the pattern. On a NULL column the comparison is not true.
\<close>

definition contains :: "(string \<Rightarrow> string \<Rightarrow> bool) \<Rightarrow> string \<Rightarrow> string \<Rightarrow> bool" where
  "contains like col search = like col (''%'' @ search @ ''%'')"

definition contains_null :: "(string \<Rightarrow> string \<Rightarrow> bool) \<Rightarrow> string option \<Rightarrow> string \<Rightarrow> bool" where
  "contains_null like col search =
     (case col of None \<Rightarrow> False | Some s \<Rightarrow> contains like s search)"

text \<open>
  One such operator: \<open>%\<close> stands for any run of characters, \<open>_\<close> for any one character,
  every other character for itself, with no escape character.
\<close>

fun sql_like :: "string \<Rightarrow> string \<Rightarrow> bool" where
  "sql_like s [] = (s = [])"
| "sql_like [] (p # ps) = (p = CHR ''%'' \<and> sql_like [] ps)"
| "sql_like (c # cs) (p # ps) =
     (if p = CHR ''%'' then sql_like (c # cs) ps \<or> sql_like cs (p # ps)
      else (p = CHR ''_'' \<or> p = c) \<and> sql_like cs ps)"

text \<open>
  \<open>ORDER BY created_at DESC\<close> is the database's work, and SQL leaves the order of rows with
  equal keys to the engine. The operations take the engine's ordering as a parameter
  \<open>order_by\<close>; it is admissible when it rearranges any rows into descending \<open>created_at\<close>.
\<close>

definition created_at_desc :: "BoxDB list \<Rightarrow> bool" where
  "created_at_desc rows \<longleftrightarrow> sorted_wrt (\<lambda>a b. created_at a \<ge> created_at b) rows"

definition order_by_created_at_desc :: "(BoxDB list \<Rightarrow> BoxDB list) \<Rightarrow> bool" where
  "order_by_created_at_desc order_by \<longleftrightarrow>
     (\<forall>rows. mset (order_by rows) = mset rows \<and> created_at_desc (order_by rows))"

text \<open>
  One admissible engine: a stable sort of the scanned rows, which leaves rows with equal
  \<open>created_at\<close> in primary-key order.
\<close>

definition order_by_scan :: "BoxDB list \<Rightarrow> BoxDB list" where
  "order_by_scan rows = sort_key (\<lambda>b. - created_at b) rows"

text \<open>
  \<open>OFFSET\<close> is an integer of the database: a statement whose offset is larger than the
  engine's integers is refused. The largest offset the engine takes is a parameter
  \<open>max_offset\<close> of the list query; \<open>int64_max\<close> is that of an engine with signed 64-bit
  integers.
\<close>

definition int64_max :: nat where
  "int64_max = 2 ^ 63 - 1"

record PaginatedResponse =
  total :: int
  page :: int
  page_size :: int
  total_pages :: int
  items :: "BoxDB list"

section \<open>API endpoints\<close>

text \<open>
  A handler that can write returns its result together with the database; when it fails,
  the database is the one it was given (the request's transaction is never committed).
\<close>

text \<open>
  \<open>POST /boxes\<close>. The row gets the next autoincrement id, and each of the two timestamp
  columns reads the clock for its default.
\<close>

definition create_box :: "(nat \<Rightarrow> datetime) \<Rightarrow> database \<Rightarrow> json \<Rightarrow> (failure + BoxDB) \<times> database" where
  "create_box utcnow db body =
     (case parse_BoxCreate body of
        Inl f \<Rightarrow> (Inl f, db)
      | Inr box \<Rightarrow>
          (case find (\<lambda>b. mac_address b = mac_address box) (iot_boxes db) of
             Some existing \<Rightarrow> (Inl (HTTPException DuplicateKey), db)
           | None \<Rightarrow>
               (let db_box = \<lparr>mac_address = mac_address box, ip_address = ip_address box,
                               main_equipment = main_equipment box, location = location box,
                               process = process box, manager = manager box, note' = note' box,
                               id' = auto_increment db,
                               created_at = utcnow 0, updated_at = utcnow 1\<rparr>
                in (Inr db_box,
                    db\<lparr>iot_boxes := iot_boxes db @ [db_box],
                       auto_increment := auto_increment db + 1\<rparr>))))"

text \<open>
  \<open>GET /boxes\<close>. \<open>Query(1, ge=1)\<close> and \<open>Query(50, ge=1, le=1000)\<close> refuse a page or a page
  size out of range before the handler runs. \<open>if search:\<close> and \<open>if process:\<close> skip a filter
  whose parameter is absent or empty. The count is taken first; the statement that
  fetches the page carries the offset, which nothing in the handler bounds, and fails
  when the database does not take it.
\<close>

definition get_boxes ::
  "(string \<Rightarrow> string \<Rightarrow> bool) \<Rightarrow> nat \<Rightarrow> (BoxDB list \<Rightarrow> BoxDB list) \<Rightarrow> database \<Rightarrow> int \<Rightarrow> int
     \<Rightarrow> string option \<Rightarrow> string option \<Rightarrow> failure + PaginatedResponse" where
  "get_boxes like max_offset order_by db page page_size search process =
     (let errs = (if page < 1 then [(''page'', OutOfRange)] else []) @
                 (if page_size < 1 \<or> page_size > 1000 then [(''page_size'', OutOfRange)] else [])
      in if errs \<noteq> [] then Inl (ValidationError errs)
         else
           (let query = iot_boxes db;
                query = (case search of
                           None \<Rightarrow> query
                         | Some s \<Rightarrow>
                             if s = [] then query
                             else filter (\<lambda>b. contains like (mac_address b) s \<or>
                                              contains_null like (ip_address b) s \<or>
                                              contains_null like (main_equipment b) s \<or>
                                              contains_null like (location b) s \<or>
                                              contains like (BoxBase.process b) s \<or>
                                              contains_null like (manager b) s) query);
                query = (case process of
                           None \<Rightarrow> query
                         | Some p \<Rightarrow>
                             if p = [] then query
                             else filter (\<lambda>b. BoxBase.process b = p) query);
                total = int (length query);
                offset = (page - 1) * page_size
            in if nat offset > max_offset then Inl DatabaseError
               else
                 (let items = take (nat page_size) (drop (nat offset) (order_by query));
                      total_pages = (total + page_size - 1) div page_size
                  in Inr \<lparr>total = total, page = page, page_size = page_size,
                          total_pages = total_pages, items = items\<rparr>)))"
  for page page_size process

text \<open>
  \<open>PUT /boxes/{box_id}\<close>. The body is validated first; then the row is looked up, a changed
  MAC address is checked against the stored ones, the provided fields are assigned,
  \<open>updated_at\<close> is set from the clock, and the commit refuses a null in a NOT NULL column.
\<close>

fun update_row :: "int \<Rightarrow> BoxDB \<Rightarrow> BoxDB list \<Rightarrow> BoxDB list" where
  "update_row i new [] = []"
| "update_row i new (b # bs) = (if id' b = i then new # bs else b # update_row i new bs)"

definition setattr_null :: "string option option \<Rightarrow> string option \<Rightarrow> string option" where
  "setattr_null provided old = (case provided of None \<Rightarrow> old | Some v \<Rightarrow> v)"

definition setattr_str :: "string option option \<Rightarrow> string \<Rightarrow> string" where
  "setattr_str provided old = (case provided of Some (Some s) \<Rightarrow> s | _ \<Rightarrow> old)"

definition update_box ::
  "(nat \<Rightarrow> datetime) \<Rightarrow> database \<Rightarrow> int \<Rightarrow> json \<Rightarrow> (failure + BoxDB) \<times> database" where
  "update_box utcnow db box_id body =
     (case parse_BoxUpdate body of
        Inl f \<Rightarrow> (Inl f, db)
      | Inr box_update \<Rightarrow>
          (case find (\<lambda>b. id' b = box_id) (iot_boxes db) of
             None \<Rightarrow> (Inl (HTTPException NotFound), db)
           | Some db_box \<Rightarrow>
               if truthy (attr box_update ''mac_address'') \<and>
                  attr box_update ''mac_address'' \<noteq> Some (mac_address db_box) \<and>
                  find (\<lambda>b. Some (mac_address b) = attr box_update ''mac_address'') (iot_boxes db) \<noteq> None
               then (Inl (HTTPException DuplicateKey), db)
               else if box_update ''mac_address'' = Some None \<or> box_update ''process'' = Some None
               then (Inl IntegrityError, db)
               else
                 (let new = db_box\<lparr>
                        mac_address := setattr_str (box_update ''mac_address'') (mac_address db_box),
                        ip_address := setattr_null (box_update ''ip_address'') (ip_address db_box),
                        main_equipment := setattr_null (box_update ''main_equipment'') (main_equipment db_box),
                        location := setattr_null (box_update ''location'') (location db_box),
                        process := setattr_str (box_update ''process'') (process db_box),
                        manager := setattr_null (box_update ''manager'') (manager db_box),
                        note' := setattr_null (box_update ''note'') (note' db_box),
                        updated_at := utcnow 0\<rparr>
                  in (Inr new, db\<lparr>iot_boxes := update_row box_id new (iot_boxes db)\<rparr>))))"

text \<open>
  \<open>GET /boxes/export/excel\<close>. \<open>export_query\<close> is the handler up to \<open>boxes = ... .all()\<close>;
  \<open>export_to_excel\<close> is the worksheet it fills, a header row and one row per box. The
  header labels are the source's Korean labels in English; \<open>strftime\<close> stands for
  \<open>strftime("%Y-%m-%d %H:%M:%S")\<close>. The encoding of the workbook as a file is left out.
\<close>

datatype cell = Number int | Text string

definition headers :: "cell list" where
  "headers = map Text [''ID'', ''MAC'', ''IP'', ''Main Equipment'', ''Location'', ''Process'',
                       ''Manager'', ''Note'', ''Created'', ''Updated'']"

definition or_empty :: "string option \<Rightarrow> string" where
  "or_empty v = (case v of None \<Rightarrow> [] | Some s \<Rightarrow> s)"

definition export_query ::
  "(string \<Rightarrow> string \<Rightarrow> bool) \<Rightarrow> (BoxDB list \<Rightarrow> BoxDB list) \<Rightarrow> database \<Rightarrow> string option
     \<Rightarrow> string option \<Rightarrow> BoxDB list" where
  "export_query like order_by db search process =
     (let query = iot_boxes db;
          query = (case search of
                     None \<Rightarrow> query
                   | Some s \<Rightarrow>
                       if s = [] then query
                       else filter (\<lambda>b. contains like (mac_address b) s \<or>
                                        contains_null like (ip_address b) s \<or>
                                        contains_null like (main_equipment b) s \<or>
                                        contains_null like (location b) s \<or>
                                        contains like (BoxBase.process b) s \<or>
                                        contains_null like (manager b) s) query);
          query = (case process of
                     None \<Rightarrow> query
                   | Some p \<Rightarrow>
                       if p = [] then query
                       else filter (\<lambda>b. BoxBase.process b = p) query)
      in order_by query)"
  for process

definition excel_row :: "(datetime \<Rightarrow> string) \<Rightarrow> BoxDB \<Rightarrow> cell list" where
  "excel_row strftime box =
     [Number (id' box),
      Text (mac_address box),
      Text (or_empty (ip_address box)),
      Text (or_empty (main_equipment box)),
      Text (or_empty (location box)),
      Text (process box),
      Text (or_empty (manager box)),
      Text (or_empty (note' box)),
      Text (strftime (created_at box)),
      Text (strftime (updated_at box))]"

definition export_to_excel ::
  "(datetime \<Rightarrow> string) \<Rightarrow> (string \<Rightarrow> string \<Rightarrow> bool) \<Rightarrow> (BoxDB list \<Rightarrow> BoxDB list) \<Rightarrow> database
     \<Rightarrow> string option \<Rightarrow> string option \<Rightarrow> cell list list" where
  "export_to_excel strftime like order_by db search process =
     headers # map (excel_row strftime) (export_query like order_by db search process)"
  for process

text \<open>
  \<open>POST /admin/normalize-processes\<close>. The loop over all rows, with \<open>updated_count\<close> as its
  accumulator; the clock is read once for each row that is changed. The handler's
  message carries \<open>updated_count\<close>, which is what the model returns.
\<close>

fun normalize_loop :: "(nat \<Rightarrow> datetime) \<Rightarrow> BoxDB list \<Rightarrow> nat \<Rightarrow> BoxDB list \<times> nat" where
  "normalize_loop utcnow [] updated_count = ([], updated_count)"
| "normalize_loop utcnow (box # boxes) updated_count =
     (if process box \<noteq> [] then
        (let new_process = upper (process box)
         in if process box \<noteq> new_process then
              (let (rest, n) = normalize_loop utcnow boxes (updated_count + 1)
               in (box\<lparr>process := new_process, updated_at := utcnow updated_count\<rparr> # rest, n))
            else
              (let (rest, n) = normalize_loop utcnow boxes updated_count
               in (box # rest, n)))
      else
        (let (rest, n) = normalize_loop utcnow boxes updated_count
         in (box # rest, n)))"

definition normalize_processes :: "(nat \<Rightarrow> datetime) \<Rightarrow> database \<Rightarrow> nat \<times> database" where
  "normalize_processes utcnow db =
     (let (rows, updated_count) = normalize_loop utcnow (iot_boxes db) 0
      in (updated_count, db\<lparr>iot_boxes := rows\<rparr>))"

section \<open>Descriptions used in the statements\<close>

text \<open>
  What the list query and the export are compared with: a record matches when the search
  string, if one is given and not empty, is found by the database's \<open>LIKE\<close> in one of the
  six searched columns, and the process filter, if one is given and not empty, equals
  the record's process.
\<close>

definition search_matches :: "(string \<Rightarrow> string \<Rightarrow> bool) \<Rightarrow> string option \<Rightarrow> BoxDB \<Rightarrow> bool" where
  "search_matches like search b =
     (case search of
        None \<Rightarrow> True
      | Some s \<Rightarrow>
          s = [] \<or>
          (\<exists>col \<in> set [Some (mac_address b), ip_address b, main_equipment b, location b,
                          Some (process b), manager b]. contains_null like col s))"

definition process_matches :: "string option \<Rightarrow> BoxDB \<Rightarrow> bool" where
  "process_matches p b = (case p of None \<Rightarrow> True | Some v \<Rightarrow> v = [] \<or> process b = v)"

definition matching ::
  "(string \<Rightarrow> string \<Rightarrow> bool) \<Rightarrow> database \<Rightarrow> string option \<Rightarrow> string option \<Rightarrow> BoxDB list" where
  "matching like db search p =
     filter (\<lambda>b. search_matches like search b \<and> process_matches p b) (iot_boxes db)"


text \<open>The value of a field by its name, as \<open>getattr\<close> gives it.\<close>

definition getattr :: "BoxDB \<Rightarrow> string \<Rightarrow> string option" where
  "getattr b k =
     (if k = ''mac_address'' then Some (mac_address b)
      else if k = ''ip_address'' then ip_address b
      else if k = ''main_equipment'' then main_equipment b
      else if k = ''location'' then location b
      else if k = ''process'' then Some (process b)
      else if k = ''manager'' then manager b
      else if k = ''note'' then note' b
      else None)"

definition BoxUpdate_fields :: "string list" where
  "BoxUpdate_fields = [''mac_address'', ''ip_address'', ''main_equipment'', ''location'',
                       ''process'', ''manager'', ''note'']"

text \<open>What the validators of \<open>BoxUpdate\<close> make of a provided value.\<close>

definition validated :: "string \<Rightarrow> string option \<Rightarrow> string option" where
  "validated k v =
     (if k = ''mac_address'' then map_option upper v
      else if k = ''process'' then map_option validate_process v
      else v)"

text \<open>A row whose process is not yet in uppercase.\<close>

definition needs_upper :: "BoxDB \<Rightarrow> bool" where
  "needs_upper b \<longleftrightarrow> process b \<noteq> upper (process b)"

section \<open>Example data\<close>

definition example_box :: "int \<Rightarrow> string \<Rightarrow> string \<Rightarrow> datetime \<Rightarrow> BoxDB" where
  "example_box i mac proc t =
     \<lparr>mac_address = mac, ip_address = Some ''192.168.1.100'', main_equipment = None,
      location = Some ''Line 3'', process = proc, manager = None, note' = None,
      id' = i, created_at = t, updated_at = t\<rparr>"

definition five_boxes :: database where
  "five_boxes =
     \<lparr>iot_boxes = [example_box 1 ''AA:BB:CC:DD:EE:01'' ''ETCH'' 100,
                   example_box 2 ''AA:BB:CC:DD:EE:02'' ''ETCH'' 200,
                   example_box 3 ''AA:BB:CC:DD:EE:03'' ''CVD'' 300,
                   example_box 4 ''AA:BB:CC:DD:EE:04'' ''CVD'' 400,
                   example_box 5 ''AA:BB:CC:DD:EE:05'' ''ETCH'' 500],
      auto_increment = 6\<rparr>"


definition one_box :: database where
  "one_box = \<lparr>iot_boxes = [example_box 1 ''AA:BB:CC:DD:EE:FF'' ''ETCH'' 100], auto_increment = 2\<rparr>"

definition mixed_case :: database where
  "mixed_case =
     \<lparr>iot_boxes = [example_box 1 ''AA:BB:CC:DD:EE:01'' ''etch'' 100,
                   example_box 2 ''AA:BB:CC:DD:EE:02'' ''ETCH'' 200,
                   example_box 3 ''AA:BB:CC:DD:EE:03'' ''Cvd'' 300],
      auto_increment = 4\<rparr>"

definition clock :: "nat \<Rightarrow> datetime" where
  "clock k = 1000 + int k"

definition request :: "(string \<times> string option) list \<Rightarrow> json" where
  "request kvs = map_of kvs"

text \<open>Request bodies, and the rows they lead to.\<close>

definition etch_request :: json where
  "etch_request = request [(''mac_address'', Some ''aa-bb-cc-dd-ee-ff''), (''process'', Some ''etch'')]"

definition lower_request :: json where
  "lower_request = request [(''mac_address'', Some ''aa:bb:cc:dd:ee:ff''), (''process'', Some ''etch'')]"

definition empty_process_request :: json where
  "empty_process_request = request [(''mac_address'', Some ''aa:bb:cc:dd:ee:01''), (''process'', Some [])]"

definition no_process_request :: json where
  "no_process_request = request [(''mac_address'', Some ''aa:bb:cc:dd:ee:01'')]"

definition etch_box :: BoxDB where
  "etch_box = \<lparr>mac_address = ''AA-BB-CC-DD-EE-FF'', ip_address = None, main_equipment = None,
                location = None, process = ''ETCH'', manager = None, note' = None,
                id' = 2, created_at = 1000, updated_at = 1001\<rparr>"

definition empty_process_box :: BoxDB where
  "empty_process_box = \<lparr>mac_address = ''AA:BB:CC:DD:EE:01'', ip_address = None, main_equipment = None,
                location = None, process = [], manager = None, note' = None,
                id' = 2, created_at = 1000, updated_at = 1001\<rparr>"

definition mixed_case_normalized :: database where
  "mixed_case_normalized =
     \<lparr>iot_boxes = [(example_box 1 ''AA:BB:CC:DD:EE:01'' ''ETCH'' 100)\<lparr>updated_at := 1000\<rparr>,
                   example_box 2 ''AA:BB:CC:DD:EE:02'' ''ETCH'' 200,
                   (example_box 3 ''AA:BB:CC:DD:EE:03'' ''CVD'' 300)\<lparr>updated_at := 1001\<rparr>],
      auto_increment = 4\<rparr>"

definition update_request :: json where
  "update_request = request [(''location'', Some []), (''process'', Some ''cvd'')]"

definition rename_request :: json where
  "rename_request = request [(''mac_address'', Some ''aa:bb:cc:dd:ee:02'')]"

definition updated_box :: BoxDB where
  "updated_box =
     (example_box 1 ''AA:BB:CC:DD:EE:FF'' ''CVD'' 100)\<lparr>location := Some [], updated_at := 1000\<rparr>"

section \<open>Properties of the validators\<close>

lemma upper_char_idem: "upper_char (upper_char c) = upper_char c"
  by (auto simp: upper_char_def ascii_lowercase_def ascii_uppercase_def)

lemma mac_groups_Suc:
  "mac_groups (Suc n) v = Some r \<longleftrightarrow>
     (\<exists>a b c s. v = a # b # c # s \<and> is_hex a \<and> is_hex b \<and> is_sep c \<and> mac_groups n s = Some r)"
  by (cases "(Suc n, v)" rule: mac_groups.cases) auto

lemma mac_groups_iff:
  "mac_groups n v = Some r \<longleftrightarrow>
     (\<exists>p. v = p @ r \<and> list_all2 fits (concat (replicate n ''XX:'')) p)"
proof (induction n arbitrary: v)
  case 0
  show ?case by auto
next
  case (Suc n)
  show ?case
  proof
    assume "mac_groups (Suc n) v = Some r"
    then obtain a b c s where v: "v = a # b # c # s" and h: "is_hex a" "is_hex b" "is_sep c"
      and s: "mac_groups n s = Some r"
      unfolding mac_groups_Suc by blast
    from s Suc.IH obtain p where p: "s = p @ r" "list_all2 fits (concat (replicate n ''XX:'')) p"
      by blast
    have "v = (a # b # c # p) @ r" using v p by simp
    moreover have "list_all2 fits (concat (replicate (Suc n) ''XX:'')) (a # b # c # p)"
      using h p by (simp add: fits_def)
    ultimately show "\<exists>p. v = p @ r \<and> list_all2 fits (concat (replicate (Suc n) ''XX:'')) p"
      by blast
  next
    assume "\<exists>p. v = p @ r \<and> list_all2 fits (concat (replicate (Suc n) ''XX:'')) p"
    then obtain p where p: "v = p @ r" "list_all2 fits (concat (replicate (Suc n) ''XX:'')) p"
      by blast
    from p(2) obtain a b c p' where p': "p = a # b # c # p'" "is_hex a" "is_hex b" "is_sep c"
      "list_all2 fits (concat (replicate n ''XX:'')) p'"
      by (auto simp: list_all2_Cons1 fits_def)
    have "mac_groups n (p' @ r) = Some r" using Suc.IH p'(5) by blast
    then show "mac_groups (Suc n) v = Some r" using p p' by simp
  qed
qed

lemma mac_template_groups: "mac_template = concat (replicate 5 ''XX:'') @ ''XX''"
  by (simp add: mac_template_def eval_nat_numeral)

lemma mac_pattern_shape:
  "mac_pattern v \<longleftrightarrow> (\<exists>w. mac_shape w \<and> (v = w \<or> v = w @ [LF]))"
proof
  assume "mac_pattern v"
  then obtain r a b rest where r: "mac_groups 5 v = Some r" "r = a # b # rest" "is_hex a" "is_hex b" "at_end rest"
    by (auto simp: mac_pattern_def split: option.splits list.splits)
  from r(1) obtain p where p: "v = p @ r" "list_all2 fits (concat (replicate 5 ''XX:'')) p"
    unfolding mac_groups_iff by blast
  have "list_all2 fits ''XX'' [a, b]" using r by (simp add: fits_def)
  with p(2) have "mac_shape (p @ [a, b])"
    unfolding mac_shape_def mac_template_groups by (rule list_all2_appendI)
  moreover have "v = (p @ [a, b]) \<or> v = (p @ [a, b]) @ [LF]"
    using p(1) r(2,5) by (auto simp: at_end_def)
  ultimately show "\<exists>w. mac_shape w \<and> (v = w \<or> v = w @ [LF])" by blast
next
  assume "\<exists>w. mac_shape w \<and> (v = w \<or> v = w @ [LF])"
  then obtain w where w: "mac_shape w" "v = w \<or> v = w @ [LF]" by blast
  from w(1) obtain p q where pq: "w = p @ q" "list_all2 fits (concat (replicate 5 ''XX:'')) p"
    "list_all2 fits ''XX'' q"
    unfolding mac_shape_def mac_template_groups by (auto simp: list_all2_append1)
  from pq(3) obtain a b where q: "q = [a, b]" "is_hex a" "is_hex b"
    by (auto simp: list_all2_Cons1 fits_def)
  obtain rest where rest: "v = p @ (a # b # rest)" "at_end rest"
    using w(2) pq(1) q(1) by (auto simp: at_end_def)
  have "mac_groups 5 v = Some (a # b # rest)"
    unfolding mac_groups_iff using rest(1) pq(2) by blast
  then show "mac_pattern v" using q rest(2) by (simp add: mac_pattern_def)
qed

lemma upper_char_not_lower: "upper_char c \<notin> set ascii_lowercase"
  by (auto simp: upper_char_def ascii_lowercase_def ascii_uppercase_def)

lemma upper_char_hex_all: "list_all (\<lambda>c. is_hex (upper_char c)) ''0123456789ABCDEFabcdef''"
  by code_simp

lemma upper_char_hex: "is_hex c \<Longrightarrow> is_hex (upper_char c)"
  using upper_char_hex_all unfolding list_all_iff is_hex_def [of c] by blast

lemma upper_char_fixed: "upper_char CHR '':'' = CHR '':'' \<and> upper_char CHR ''-'' = CHR ''-'' \<and> upper_char LF = LF"
  by code_simp

lemma upper_char_sep: "is_sep c \<Longrightarrow> upper_char c = c"
  using upper_char_fixed unfolding is_sep_def by blast

lemma upper_char_LF: "upper_char LF = LF"
  using upper_char_fixed by blast

lemma upper_idem: "upper (upper s) = upper s"
  by (simp add: upper_def upper_char_idem)

lemma fits_upper: "fits t c \<Longrightarrow> fits t (upper_char c)"
  by (auto simp: fits_def upper_char_hex upper_char_sep)

lemma mac_shape_upper: "mac_shape w \<Longrightarrow> mac_shape (upper w)"
  unfolding mac_shape_def upper_def
  by (simp add: list_all2_map2) (erule list_all2_mono, simp add: fits_upper)

lemma mac_pattern_upper: "mac_pattern v \<Longrightarrow> mac_pattern (upper v)"
proof -
  assume "mac_pattern v"
  then obtain w where w: "mac_shape w" "v = w \<or> v = w @ [LF]"
    unfolding mac_pattern_shape by blast
  then have "mac_shape (upper w) \<and> (upper v = upper w \<or> upper v = upper w @ [LF])"
    using mac_shape_upper [of w] by (auto simp: upper_def upper_char_LF)
  then show ?thesis unfolding mac_pattern_shape by blast
qed

lemma hex_not_LF_all: "list_all (\<lambda>c. c \<noteq> LF) ''0123456789ABCDEFabcdef''"
  by code_simp

lemma is_hex_not_LF: "is_hex c \<Longrightarrow> c \<noteq> LF"
  using hex_not_LF_all unfolding list_all_iff is_hex_def [of c] by blast

lemma mac_shape_no_LF: "mac_shape w \<Longrightarrow> \<not> ends_with_LF w"
proof -
  assume "mac_shape w"
  then obtain p q where pq: "w = p @ q" "list_all2 fits ''XX'' q"
    unfolding mac_shape_def mac_template_groups by (auto simp: list_all2_append1)
  from pq(2) obtain a b where q: "q = [a, b]" "is_hex b"
    by (auto simp: list_all2_Cons1 fits_def)
  then have "last w = b" using pq(1) by simp
  then show ?thesis using q(2) is_hex_not_LF by (auto simp: ends_with_LF_def)
qed

lemma mac_shape_nonempty: "mac_shape w \<Longrightarrow> w \<noteq> []"
  unfolding mac_shape_def mac_template_def by auto

section \<open>Properties of the queries\<close>

lemma order_by_scan_admissible: "order_by_created_at_desc order_by_scan"
  unfolding order_by_created_at_desc_def order_by_scan_def created_at_desc_def
proof (intro allI conjI)
  fix rows :: "BoxDB list"
  show "mset (sort_key (\<lambda>b. - created_at b) rows) = mset rows" by simp
  have "sorted (map (\<lambda>b. - created_at b) (sort_key (\<lambda>b. - created_at b) rows))"
    by (rule sorted_sort_key)
  then show "sorted_wrt (\<lambda>a b. created_at b \<le> created_at a) (sort_key (\<lambda>b. - created_at b) rows)"
    by (simp add: sorted_map)
qed

lemma admissible_length: "order_by_created_at_desc order_by \<Longrightarrow> length (order_by rows) = length rows"
  unfolding order_by_created_at_desc_def by (metis size_mset)

lemma admissible_set: "order_by_created_at_desc order_by \<Longrightarrow> set (order_by rows) = set rows"
  unfolding order_by_created_at_desc_def by (metis set_mset_mset)


lemma filters_matching:
  fixes process :: "string option"
  shows "(case process of
       None \<Rightarrow> (case search of None \<Rightarrow> iot_boxes db
                 | Some s \<Rightarrow> if s = [] then iot_boxes db
                     else filter (\<lambda>b. contains like (mac_address b) s \<or>
                                              contains_null like (ip_address b) s \<or>
                                              contains_null like (main_equipment b) s \<or>
                                              contains_null like (location b) s \<or>
                                              contains like (BoxBase.process b) s \<or>
                                              contains_null like (manager b) s) (iot_boxes db))
     | Some p \<Rightarrow> if p = [] then (case search of None \<Rightarrow> iot_boxes db
                 | Some s \<Rightarrow> if s = [] then iot_boxes db
                     else filter (\<lambda>b. contains like (mac_address b) s \<or>
                                              contains_null like (ip_address b) s \<or>
                                              contains_null like (main_equipment b) s \<or>
                                              contains_null like (location b) s \<or>
                                              contains like (BoxBase.process b) s \<or>
                                              contains_null like (manager b) s) (iot_boxes db))
          else filter (\<lambda>b. BoxBase.process b = p) (case search of None \<Rightarrow> iot_boxes db
                 | Some s \<Rightarrow> if s = [] then iot_boxes db
                     else filter (\<lambda>b. contains like (mac_address b) s \<or>
                                              contains_null like (ip_address b) s \<or>
                                              contains_null like (main_equipment b) s \<or>
                                              contains_null like (location b) s \<or>
                                              contains like (BoxBase.process b) s \<or>
                                              contains_null like (manager b) s) (iot_boxes db)))
     = matching like db search process"
  by (cases search; cases process)
     (auto simp: matching_def search_matches_def process_matches_def contains_null_def intro!: filter_cong)

lemma ceil_div:
  fixes t n :: int
  assumes "0 < n"
  shows "(t + n - 1) div n = \<lceil>real_of_int t / real_of_int n\<rceil>"
proof -
  define z where "z = (t + n - 1) div n"
  define m where "m = (t + n - 1) mod n"
  have m: "0 \<le> m" "m < n" using assms by (simp_all add: m_def)
  have zn: "z * n = (t + n - 1) - m"
    by (simp add: z_def m_def minus_mod_eq_div_mult)
  have lo: "(z - 1) * n < t" using zn m by (simp add: algebra_simps)
  have hi: "t \<le> z * n" using zn m by simp
  have "real_of_int (z - 1) * real_of_int n < real_of_int t"
    using lo by (metis of_int_less_iff of_int_mult)
  then have 1: "of_int z - 1 < real_of_int t / real_of_int n"
    using assms by (simp add: pos_less_divide_eq)
  have "real_of_int t \<le> real_of_int z * real_of_int n"
    using hi by (metis of_int_le_iff of_int_mult)
  then have 2: "real_of_int t / real_of_int n \<le> of_int z"
    using assms by (simp add: pos_divide_le_eq)
  from 1 2 have "\<lceil>real_of_int t / real_of_int n\<rceil> = z" by (rule ceiling_unique)
  then show ?thesis by (simp add: z_def)
qed

lemma get_boxes_valid:
  fixes page page_size :: int and process :: "string option"
  assumes "1 \<le> page" "1 \<le> page_size" "page_size \<le> 1000"
    and "nat ((page - 1) * page_size) \<le> max_offset"
  shows "get_boxes like max_offset order_by db page page_size search process =
     Inr \<lparr>total = int (length (matching like db search process)), page = page, page_size = page_size,
          total_pages = (int (length (matching like db search process)) + page_size - 1) div page_size,
          items = take (nat page_size) (drop (nat ((page - 1) * page_size))
                    (order_by (matching like db search process)))\<rparr>"
  using assms unfolding get_boxes_def Let_def
  by (simp add: filters_matching [symmetric] split: option.splits)


lemma export_query_matching:
  fixes process :: "string option"
  shows "export_query like order_by db search process = order_by (matching like db search process)"
  unfolding export_query_def Let_def
  by (simp add: filters_matching [symmetric] split: option.splits)






lemma get_boxes_page_one_offset:
  fixes page_size :: int
  shows "nat ((1 - 1) * page_size) \<le> max_offset"
  by simp

text \<open>
  With the operator \<open>sql_like\<close> a search for \<open>_\<close> finds every row that has a non-empty
  searched column, and a search for \<open>Line\<close> finds the rows located at \<open>Line 3\<close>.
\<close>

lemma search_underscore:
  "matching sql_like five_boxes (Some ''_'') None = iot_boxes five_boxes"
  by (simp add: matching_def search_matches_def process_matches_def contains_null_def
      contains_def five_boxes_def example_box_def)

lemma search_line:
  "matching sql_like five_boxes (Some ''Line'') (Some ''CVD'') =
     [example_box 3 ''AA:BB:CC:DD:EE:03'' ''CVD'' 300, example_box 4 ''AA:BB:CC:DD:EE:04'' ''CVD'' 400]"
  by (simp add: matching_def search_matches_def process_matches_def contains_null_def
      contains_def five_boxes_def example_box_def)

section \<open>Properties of the store operations\<close>

lemma parse_BoxCreate_Inr:
  assumes "parse_BoxCreate body = Inr box"
  shows "\<exists>v w. body ''mac_address'' = Some (Some v) \<and> validate_mac v = Inr (mac_address box) \<and>
           body ''process'' = Some (Some w) \<and> process box = validate_process w \<and>
           validate_ip (attr body ''ip_address'') = Inr (ip_address box) \<and>
           main_equipment box = attr body ''main_equipment'' \<and>
           location box = attr body ''location'' \<and>
           manager box = attr body ''manager'' \<and>
           note' box = attr body ''note''"
  using assms unfolding parse_BoxCreate_def Let_def
  by (auto split: option.splits sum.splits)

lemma parse_BoxCreate_no_process:
  assumes "body ''process'' = None"
  shows "\<exists>errs. parse_BoxCreate body = Inl (ValidationError errs) \<and> (''process'', MissingRequired) \<in> set errs"
  using assms unfolding parse_BoxCreate_def Let_def
  by (auto simp: field_errors_def split: option.splits sum.splits)

lemma parse_BoxCreate_process_given:
  assumes "body ''process'' = Some (Some v)"
    and "parse_BoxCreate body = Inl (ValidationError errs)"
  shows "set errs \<subseteq> {''mac_address'', ''ip_address''} \<times> UNIV"
  using assms unfolding parse_BoxCreate_def Let_def
  by (auto simp: field_errors_def split: option.splits sum.splits)

lemma validate_process_upper: "validate_process v = upper v"
  by (simp add: validate_process_def upper_def)

lemma validate_mac_Inr: "validate_mac v = Inr m \<Longrightarrow> m = upper v"
  by (auto simp: validate_mac_def split: if_splits)

lemma validate_mac_Inr_nonempty: "validate_mac v = Inr m \<Longrightarrow> m \<noteq> []"
  by (auto simp: validate_mac_def upper_def split: if_splits)

lemma create_box_Inr:
  assumes "create_box utcnow db body = (Inr new, db')"
  shows "\<exists>box. parse_BoxCreate body = Inr box \<and>
           (\<forall>b \<in> set (iot_boxes db). mac_address b \<noteq> mac_address box) \<and>
           new = \<lparr>mac_address = mac_address box, ip_address = ip_address box,
                   main_equipment = main_equipment box, location = location box,
                   process = process box, manager = manager box, note' = note' box,
                   id' = auto_increment db, created_at = utcnow 0, updated_at = utcnow 1\<rparr> \<and>
           db' = db\<lparr>iot_boxes := iot_boxes db @ [new], auto_increment := auto_increment db + 1\<rparr>"
  using assms unfolding create_box_def Let_def
  by (auto split: sum.splits option.splits simp: find_None_iff)

lemma create_etch:
  "create_box clock one_box etch_request =
     (Inr etch_box, \<lparr>iot_boxes = iot_boxes one_box @ [etch_box], auto_increment = 3\<rparr>)"
  by code_simp

lemma create_empty_process:
  "create_box clock one_box empty_process_request =
     (Inr empty_process_box, \<lparr>iot_boxes = iot_boxes one_box @ [empty_process_box], auto_increment = 3\<rparr>)"
  by code_simp

lemma no_process_absent: "no_process_request ''process'' = None"
  by code_simp

lemma etch_request_process: "etch_request ''process'' = Some (Some ''etch'')"
  by code_simp

lemma etch_request_mac: "etch_request ''mac_address'' = Some (Some ''aa-bb-cc-dd-ee-ff'')"
  by code_simp

lemma empty_process_request_process: "empty_process_request ''process'' = Some (Some [])"
  by code_simp

lemma lower_request_mac: "lower_request ''mac_address'' = Some (Some ''aa:bb:cc:dd:ee:ff'')"
  by code_simp

lemma parse_lower_request:
  "parse_BoxCreate lower_request =
     Inr \<lparr>mac_address = ''AA:BB:CC:DD:EE:FF'', ip_address = None, main_equipment = None,
          location = None, process = ''ETCH'', manager = None, note' = None\<rparr>"
  by code_simp

lemma one_box_macs: "map mac_address (iot_boxes one_box) = [''AA:BB:CC:DD:EE:FF'']"
  by code_simp

lemma upper_Nil: "upper [] = []"
  by (simp add: upper_def)

lemma normalize_loop_step:
  "normalize_loop utcnow (box # boxes) c =
     (if needs_upper box
      then (box\<lparr>process := upper (process box), updated_at := utcnow c\<rparr> #
              fst (normalize_loop utcnow boxes (c + 1)), snd (normalize_loop utcnow boxes (c + 1)))
      else (box # fst (normalize_loop utcnow boxes c), snd (normalize_loop utcnow boxes c)))"
  by (auto simp: needs_upper_def Let_def upper_Nil split: prod.splits)

lemma normalize_loop_count:
  "snd (normalize_loop utcnow rows c) = c + length (filter needs_upper rows)"
  by (induction rows arbitrary: c) (simp_all add: normalize_loop_step del: normalize_loop.simps(2))

lemma normalize_loop_length:
  "length (fst (normalize_loop utcnow rows c)) = length rows"
  by (induction rows arbitrary: c) (simp_all add: normalize_loop_step del: normalize_loop.simps(2))

lemma normalize_loop_nth:
  "i < length rows \<Longrightarrow>
   fst (normalize_loop utcnow rows c) ! i =
     (if needs_upper (rows ! i)
      then (rows ! i)\<lparr>process := upper (process (rows ! i)),
                      updated_at := utcnow (c + length (filter needs_upper (take i rows)))\<rparr>
      else rows ! i)"
proof (induction rows arbitrary: c i)
  case Nil
  then show ?case by simp
next
  case (Cons box boxes)
  show ?case
  proof (cases i)
    case 0
    then show ?thesis by (simp add: normalize_loop_step del: normalize_loop.simps(2))
  next
    case (Suc j)
    with Cons.prems have j: "j < length boxes" by simp
    show ?thesis
      using Cons.IH [OF j] Suc by (simp add: normalize_loop_step del: normalize_loop.simps(2))
  qed
qed

lemma normalize_loop_fixed:
  "\<forall>b \<in> set rows. \<not> needs_upper b \<Longrightarrow> normalize_loop utcnow rows c = (rows, c)"
  by (induction rows arbitrary: c) (simp_all add: normalize_loop_step del: normalize_loop.simps(2))

lemma normalize_loop_done:
  "\<forall>b \<in> set (fst (normalize_loop utcnow rows c)). \<not> needs_upper b"
proof -
  have "\<not> needs_upper (fst (normalize_loop utcnow rows c) ! i)" if "i < length rows" for i
    using normalize_loop_nth [OF that, of utcnow c]
    by (auto simp: needs_upper_def upper_idem)
  then show ?thesis
    by (metis in_set_conv_nth normalize_loop_length)
qed

lemma normalize_mixed_case: "normalize_processes clock mixed_case = (2, mixed_case_normalized)"
  by code_simp

lemma parse_BoxUpdate_Inr:
  assumes "parse_BoxUpdate body = Inr u"
  shows "u k = (case body k of None \<Rightarrow> None | Some v \<Rightarrow> Some (validated k v))"
proof (cases "body ''mac_address''")
  case None
  with assms show ?thesis
    by (auto simp: parse_BoxUpdate_def validated_def split: option.splits)
next
  case (Some a)
  show ?thesis
  proof (cases a)
    case None
    with Some assms show ?thesis
      by (auto simp: parse_BoxUpdate_def validated_def split: option.splits)
  next
    case (Some v)
    with \<open>body ''mac_address'' = Some a\<close> assms obtain m where m: "validate_mac v = Inr m"
      and u: "u = (\<lambda>k. if k = ''mac_address'' \<and> body k \<noteq> None then Some (Some m)
                       else if k = ''process'' \<and> body k \<noteq> None
                            then Some (case body ''process'' of Some (Some v) \<Rightarrow> Some (validate_process v) | _ \<Rightarrow> None)
                       else body k)"
      by (cases "validate_mac v") (auto simp: parse_BoxUpdate_def)
    from m have "m = upper v" by (rule validate_mac_Inr)
    with u Some \<open>body ''mac_address'' = Some a\<close> show ?thesis
      by (auto simp: validated_def split: option.splits)
  qed
qed

lemma parse_BoxUpdate_mac:
  assumes "parse_BoxUpdate body = Inr u" "body ''mac_address'' = Some (Some v)"
  shows "u ''mac_address'' = Some (Some (upper v)) \<and> upper v \<noteq> []"
proof -
  from assms obtain m where m: "validate_mac v = Inr m"
    by (cases "validate_mac v") (auto simp: parse_BoxUpdate_def)
  from m have "m = upper v" "m \<noteq> []"
    by (rule validate_mac_Inr, rule validate_mac_Inr_nonempty)
  then show ?thesis using parse_BoxUpdate_Inr [OF assms(1), of "''mac_address''"] assms(2)
    by (simp add: validated_def)
qed

lemma update_row_length: "length (update_row i new rows) = length rows"
  by (induction rows) auto

lemma update_row_other:
  "j < length rows \<Longrightarrow> id' (rows ! j) \<noteq> i \<Longrightarrow> update_row i new rows ! j = rows ! j"
proof (induction rows arbitrary: j)
  case Nil
  then show ?case by simp
next
  case (Cons b bs)
  then show ?case by (cases j) auto
qed

lemma update_row_set:
  "find (\<lambda>b. id' b = i) rows = Some old \<Longrightarrow> new \<in> set (update_row i new rows)"
  by (induction rows) (auto split: if_splits)

lemma update_one_box:
  "update_box clock one_box 1 update_request =
     (Inr updated_box, \<lparr>iot_boxes = [updated_box], auto_increment = 2\<rparr>)"
  by code_simp

lemma parse_update_request: "\<exists>u. parse_BoxUpdate update_request = Inr u"
  by (simp add: parse_BoxUpdate_def update_request_def request_def)

lemma parse_rename_request: "\<exists>u. parse_BoxUpdate rename_request = Inr u"
proof -
  have "validate_mac ''aa:bb:cc:dd:ee:02'' = Inr ''AA:BB:CC:DD:EE:02''" by code_simp
  then show ?thesis by (simp add: parse_BoxUpdate_def rename_request_def request_def)
qed

lemma find_one_box:
  "find (\<lambda>b. id' b = 1) (iot_boxes one_box) = Some (example_box 1 ''AA:BB:CC:DD:EE:FF'' ''ETCH'' 100)"
  "find (\<lambda>b. id' b = 9) (iot_boxes one_box) = None"
  by (simp_all add: one_box_def example_box_def)

lemma find_five_boxes:
  "find (\<lambda>b. id' b = 1) (iot_boxes five_boxes) = Some (example_box 1 ''AA:BB:CC:DD:EE:01'' ''ETCH'' 100)"
  by (simp add: five_boxes_def example_box_def)

lemma rename_collides:
  "rename_request ''mac_address'' = Some (Some ''aa:bb:cc:dd:ee:02'') \<and>
   upper ''aa:bb:cc:dd:ee:02'' \<noteq> mac_address (example_box 1 ''AA:BB:CC:DD:EE:01'' ''ETCH'' 100) \<and>
   example_box 2 ''AA:BB:CC:DD:EE:02'' ''ETCH'' 200 \<in> set (iot_boxes five_boxes) \<and>
   mac_address (example_box 2 ''AA:BB:CC:DD:EE:02'' ''ETCH'' 200) = upper ''aa:bb:cc:dd:ee:02''"
proof -
  have "upper ''aa:bb:cc:dd:ee:02'' = ''AA:BB:CC:DD:EE:02''" by code_simp
  then show ?thesis
    by (simp add: rename_request_def request_def example_box_def five_boxes_def)
qed

section \<open>The claims\<close>

subsection \<open>C1: the normal form of a MAC address\<close>

text \<open>
  Claim C1, as amended. For every MAC address string \<open>v\<close> that validation accepts, the
  normalized output \<open>r\<close> is \<open>v\<close> uppercased and nothing else: it has the length of \<open>v\<close>, each
  of its characters is the uppercase form of the character of \<open>v\<close> at that position and is
  no lowercase letter, every separator of \<open>v\<close> stands unchanged at its position (a dash stays
  a dash), normalizing \<open>r\<close> again returns \<open>r\<close>, and two accepted strings normalize to the
  same string exactly when they are equal up to letter case.
\<close>

theorem validate_mac_normal_form:
  assumes "validate_mac v = Inr r"
  shows "r = upper v \<and> length r = length v \<and>
         (\<forall>i<length v. r ! i = upper_char (v ! i) \<and> r ! i \<notin> set ascii_lowercase \<and>
                         (is_sep (v ! i) \<longrightarrow> r ! i = v ! i)) \<and>
         validate_mac r = Inr r \<and>
         (\<forall>w s. validate_mac w = Inr s \<longrightarrow> (r = s \<longleftrightarrow> upper v = upper w))"
proof -
  from assms have v: "v \<noteq> []" "mac_pattern v" and r: "r = upper v"
    by (auto simp: validate_mac_def split: if_splits)
  have "upper v \<noteq> []" using v(1) by (simp add: upper_def)
  then have "validate_mac r = Inr r"
    using v(2) r mac_pattern_upper [of v] by (simp add: validate_mac_def upper_idem)
  moreover have "\<forall>w s. validate_mac w = Inr s \<longrightarrow> (r = s \<longleftrightarrow> upper v = upper w)"
    using r by (auto simp: validate_mac_def split: if_splits)
  moreover have "\<forall>i<length v. r ! i = upper_char (v ! i) \<and> r ! i \<notin> set ascii_lowercase \<and>
                         (is_sep (v ! i) \<longrightarrow> r ! i = v ! i)"
    using r by (simp add: upper_def upper_char_not_lower upper_char_sep)
  ultimately show ?thesis
    using r by (simp add: upper_def)
qed

text \<open>The theorem at \<open>aa-bb-cc-dd-ee-ff\<close>, whose normal form keeps the dashes.\<close>

theorem validate_mac_normal_form_witness:
  "validate_mac ''aa-bb-cc-dd-ee-ff'' = Inr ''AA-BB-CC-DD-EE-FF'' \<and>
   ''AA-BB-CC-DD-EE-FF'' = upper ''aa-bb-cc-dd-ee-ff'' \<and>
   validate_mac ''AA-BB-CC-DD-EE-FF'' = Inr ''AA-BB-CC-DD-EE-FF''"
proof -
  have h: "validate_mac ''aa-bb-cc-dd-ee-ff'' = Inr ''AA-BB-CC-DD-EE-FF''"
    by code_simp
  from validate_mac_normal_form [OF h] h show ?thesis by blast
qed

text \<open>
  C1 as the specification states it fails: \<open>aa-bb-cc-dd-ee-ff\<close> and \<open>AA:BB:CC:DD:EE:FF\<close> are
  both accepted, have the same normal form in the specification's sense, and are
  normalized by the validator to two different strings.
\<close>

theorem validate_mac_keeps_dashes_counterexample:
  "validate_mac ''aa-bb-cc-dd-ee-ff'' = Inr ''AA-BB-CC-DD-EE-FF'' \<and>
   validate_mac ''AA:BB:CC:DD:EE:FF'' = Inr ''AA:BB:CC:DD:EE:FF'' \<and>
   validate_mac ''aa-bb-cc-dd-ee-ff'' \<noteq> validate_mac ''AA:BB:CC:DD:EE:FF'' \<and>
   spec_normalize_mac ''aa-bb-cc-dd-ee-ff'' = spec_normalize_mac ''AA:BB:CC:DD:EE:FF''"
  by code_simp

subsection \<open>C2: creating a box whose MAC address is stored\<close>

text \<open>
  Claim C2, as amended. For every stored box and every create request that passes
  validation and whose \<open>mac_address\<close>, uppercased, equals that box's stored
  \<open>mac_address\<close>, the create operation fails with \<open>DuplicateKey\<close>, whatever letter case the
  request uses, and the database is left as it was.
\<close>

theorem create_box_duplicate:
  assumes "parse_BoxCreate body = Inr box"
    and "body ''mac_address'' = Some (Some v)"
    and "b \<in> set (iot_boxes db)"
    and "mac_address b = upper v"
  shows "create_box utcnow db body = (Inl (HTTPException DuplicateKey), db)"
proof -
  from parse_BoxCreate_Inr [OF assms(1)] assms(2) have "validate_mac v = Inr (mac_address box)"
    by auto
  then have "mac_address box = upper v" by (rule validate_mac_Inr)
  with assms(3,4) have "find (\<lambda>b. mac_address b = mac_address box) (iot_boxes db) \<noteq> None"
    by (auto simp: find_None_iff)
  then show ?thesis
    using assms(1) by (auto simp: create_box_def split: option.splits)
qed

text \<open>The theorem at a request that writes a stored address in lowercase.\<close>

theorem create_box_duplicate_witness:
  "create_box clock one_box lower_request = (Inl (HTTPException DuplicateKey), one_box)"
proof -
  have m: "example_box 1 ''AA:BB:CC:DD:EE:FF'' ''ETCH'' 100 \<in> set (iot_boxes one_box)"
    by (simp add: one_box_def)
  have u: "mac_address (example_box 1 ''AA:BB:CC:DD:EE:FF'' ''ETCH'' 100) = upper ''aa:bb:cc:dd:ee:ff''"
    by code_simp
  from create_box_duplicate [OF parse_lower_request lower_request_mac m u]
  show ?thesis .
qed

text \<open>
  C2 as the specification states it fails: the request writes the stored address
  \<open>AA:BB:CC:DD:EE:FF\<close> with dashes, so both have the same normal form in the
  specification's sense, and the box is created as a second row.
\<close>

theorem create_box_dash_counterexample:
  "map mac_address (iot_boxes one_box) = [''AA:BB:CC:DD:EE:FF''] \<and>
   etch_request ''mac_address'' = Some (Some ''aa-bb-cc-dd-ee-ff'') \<and>
   spec_normalize_mac ''aa-bb-cc-dd-ee-ff'' = ''AA:BB:CC:DD:EE:FF'' \<and>
   create_box clock one_box etch_request =
     (Inr etch_box, \<lparr>iot_boxes = iot_boxes one_box @ [etch_box], auto_increment = 3\<rparr>)"
proof -
  have "spec_normalize_mac ''aa-bb-cc-dd-ee-ff'' = ''AA:BB:CC:DD:EE:FF''" by code_simp
  with one_box_macs etch_request_mac create_etch show ?thesis by blast
qed

subsection \<open>C3: pagination\<close>

text \<open>
  Claim C3, as amended. For every query with \<open>page \<ge> 1\<close> and \<open>1 \<le> page_size \<le> 1000\<close> whose
  offset \<open>(page - 1) * page_size\<close> is one the database takes, the list query succeeds; its
  items are the matching records in the order the database returns them, with the
  first \<open>(page - 1) * page_size\<close> skipped and at most \<open>page_size\<close> taken (exactly as many as
  are left, up to \<open>page_size\<close>); \<open>total\<close> is the number of all matching records;
  \<open>total_pages\<close> is the ceiling of \<open>total / page_size\<close>, which is 0 when \<open>total\<close> is 0. With
  five stored boxes, no filter and \<open>page_size = 2\<close> there are 3 pages, page 1 has 2 items
  and page 3 has 1.
\<close>

theorem get_boxes_pagination:
  fixes page page_size :: int and process :: "string option"
  assumes "order_by_created_at_desc order_by" "1 \<le> page" "1 \<le> page_size" "page_size \<le> 1000"
    and "nat ((page - 1) * page_size) \<le> max_offset"
  shows "\<exists>r. get_boxes like max_offset order_by db page page_size search process = Inr r \<and>
     items r = take (nat page_size) (drop (nat ((page - 1) * page_size))
                 (order_by (matching like db search process))) \<and>
     length (items r) \<le> nat page_size \<and>
     int (length (items r)) = max 0 (min page_size (total r - (page - 1) * page_size)) \<and>
     total r = int (length (matching like db search process)) \<and>
     total_pages r = \<lceil>real_of_int (total r) / real_of_int page_size\<rceil> \<and>
     (total r = 0 \<longrightarrow> total_pages r = 0) \<and>
     (length (iot_boxes db) = 5 \<and> \<not> truthy search \<and> \<not> truthy process \<and> page_size = 2 \<longrightarrow>
        total_pages r = 3 \<and>
        (page = 1 \<longrightarrow> length (items r) = 2) \<and>
        (page = 3 \<longrightarrow> length (items r) = 1))"
proof -
  let ?m = "matching like db search process"
  let ?r = "\<lparr>total = int (length ?m), page = page, page_size = page_size,
          total_pages = (int (length ?m) + page_size - 1) div page_size,
          items = take (nat page_size) (drop (nat ((page - 1) * page_size)) (order_by ?m))\<rparr>"
  have r: "get_boxes like max_offset order_by db page page_size search process = Inr ?r"
    using assms(2-5) by (rule get_boxes_valid)
  have len: "length (order_by ?m) = length ?m"
    using assms(1) by (rule admissible_length)
  have off: "0 \<le> (page - 1) * page_size" using assms(2,3) by simp
  have n: "int (length (items ?r)) = max 0 (min page_size (total ?r - (page - 1) * page_size))"
  proof -
    define k where "k = (page - 1) * page_size"
    have "0 \<le> k" using off by (simp add: k_def)
    then have "int (min (length ?m - nat k) (nat page_size)) =
        max 0 (min page_size (int (length ?m) - k))"
      using assms(3) by arith
    then show ?thesis by (simp add: len k_def)
  qed
  have c: "total_pages ?r = \<lceil>real_of_int (total ?r) / real_of_int page_size\<rceil>"
    using assms(3) by (simp add: ceil_div)
  have z: "total ?r = 0 \<longrightarrow> total_pages ?r = 0"
    using assms(3) by (simp add: div_pos_pos_trivial)
  have all: "\<not> truthy search \<Longrightarrow> \<not> truthy process \<Longrightarrow> ?m = iot_boxes db"
    by (auto simp: matching_def search_matches_def process_matches_def truthy_def split: option.splits)
  have five: "length (iot_boxes db) = 5 \<and> \<not> truthy search \<and> \<not> truthy process \<and> page_size = 2 \<longrightarrow>
        total_pages ?r = 3 \<and>
        (page = 1 \<longrightarrow> length (items ?r) = 2) \<and>
        (page = 3 \<longrightarrow> length (items ?r) = 1)"
    using all len by auto
  show ?thesis
    using r n c z five by (intro exI [of _ ?r]) simp
qed

text \<open>The theorem at a store of five boxes, pages 1 and 3 with page size 2.\<close>

theorem get_boxes_pagination_witness:
  "(\<exists>r. get_boxes sql_like int64_max order_by_scan five_boxes 1 2 None None = Inr r \<and>
        length (items r) = 2 \<and> total r = 5 \<and> total_pages r = 3) \<and>
   (\<exists>r. get_boxes sql_like int64_max order_by_scan five_boxes 3 2 None None = Inr r \<and>
        length (items r) = 1 \<and> total r = 5 \<and> total_pages r = 3)"
proof -
  have five: "length (iot_boxes five_boxes) = 5" by (simp add: five_boxes_def)
  have t: "\<not> truthy None" by (simp add: truthy_def)
  have m: "matching sql_like five_boxes None None = iot_boxes five_boxes"
    by (simp add: matching_def search_matches_def process_matches_def)
  have o1: "nat ((1 - 1) * 2) \<le> int64_max" by simp
  have o3: "nat ((3 - 1) * 2) \<le> int64_max" by (simp add: int64_max_def)
  from get_boxes_pagination [OF order_by_scan_admissible _ _ _ o1, of sql_like five_boxes None None]
  obtain r where r: "get_boxes sql_like int64_max order_by_scan five_boxes 1 2 None None = Inr r"
    "total r = int (length (matching sql_like five_boxes None None))"
    "length (iot_boxes five_boxes) = 5 \<and> \<not> truthy None \<and> \<not> truthy None \<and> (2::int) = 2 \<longrightarrow>
        total_pages r = 3 \<and>
        ((1::int) = 1 \<longrightarrow> length (items r) = 2) \<and>
        ((1::int) = 3 \<longrightarrow> length (items r) = 1)"
    by auto
  from get_boxes_pagination [OF order_by_scan_admissible _ _ _ o3, of sql_like five_boxes None None]
  obtain s where s: "get_boxes sql_like int64_max order_by_scan five_boxes 3 2 None None = Inr s"
    "total s = int (length (matching sql_like five_boxes None None))"
    "length (iot_boxes five_boxes) = 5 \<and> \<not> truthy None \<and> \<not> truthy None \<and> (2::int) = 2 \<longrightarrow>
        total_pages s = 3 \<and>
        ((3::int) = 1 \<longrightarrow> length (items s) = 2) \<and>
        ((3::int) = 3 \<longrightarrow> length (items s) = 1)"
    by auto
  have "\<exists>r. get_boxes sql_like int64_max order_by_scan five_boxes 1 2 None None = Inr r \<and>
        length (items r) = 2 \<and> total r = 5 \<and> total_pages r = 3"
    using r five t m by auto
  moreover have "\<exists>r. get_boxes sql_like int64_max order_by_scan five_boxes 3 2 None None = Inr r \<and>
        length (items r) = 1 \<and> total r = 5 \<and> total_pages r = 3"
    using s five t m by auto
  ultimately show ?thesis by (rule conjI)
qed

text \<open>
  C3 as the specification states it fails: page \<open>2\<^sup>6\<^sup>3\<close> with page size 50 is a query with
  \<open>page \<ge> 1\<close> and \<open>1 \<le> page_size \<le> 1000\<close>, its offset is beyond the integers of an engine
  with signed 64-bit integers, and the list query fails there instead of returning an
  empty page.
\<close>

theorem get_boxes_offset_counterexample:
  "get_boxes sql_like int64_max order_by_scan five_boxes 9223372036854775808 50 None None =
     Inl DatabaseError"
  by (simp add: get_boxes_def int64_max_def)

subsection \<open>C4: the order of a result\<close>




subsection \<open>C5: the process of a new box\<close>

text \<open>
  Claim C5, as amended. On create, the \<open>process\<close> field is required: a request without it
  fails, with \<open>MissingRequired\<close> reported for \<open>process\<close>, and the database is left as it
  was. A request whose \<open>process\<close> is a string, the empty string included, is never refused
  on account of \<open>process\<close>. For every accepted create request the body holds a \<open>process\<close>
  string, and the \<open>process\<close> of the row that is added is that string in uppercase.
\<close>

theorem create_box_process:
  "(body ''process'' = None \<longrightarrow>
      (\<exists>errs. create_box utcnow db body = (Inl (ValidationError errs), db) \<and>
              (''process'', MissingRequired) \<in> set errs)) \<and>
   (\<forall>v errs db'. body ''process'' = Some (Some v) \<and>
        create_box utcnow db body = (Inl (ValidationError errs), db') \<longrightarrow>
      (\<forall>e. (''process'', e) \<notin> set errs)) \<and>
   (\<forall>new db'. create_box utcnow db body = (Inr new, db') \<longrightarrow>
      (\<exists>v. body ''process'' = Some (Some v) \<and> process new = upper v \<and>
           iot_boxes db' = iot_boxes db @ [new]))"
proof (intro conjI impI allI)
  assume "body ''process'' = None"
  then have "\<exists>errs. parse_BoxCreate body = Inl (ValidationError errs) \<and>
      (''process'', MissingRequired) \<in> set errs"
    by (rule parse_BoxCreate_no_process)
  then show "\<exists>errs. create_box utcnow db body = (Inl (ValidationError errs), db) \<and>
              (''process'', MissingRequired) \<in> set errs"
    by (auto simp: create_box_def)
next
  fix v errs db' e
  assume h: "body ''process'' = Some (Some v) \<and>
        create_box utcnow db body = (Inl (ValidationError errs), db')"
  then have "parse_BoxCreate body = Inl (ValidationError errs)"
    by (auto simp: create_box_def Let_def split: sum.splits option.splits)
  with h have "set errs \<subseteq> {''mac_address'', ''ip_address''} \<times> UNIV"
    by (rule parse_BoxCreate_process_given [OF conjunct1])
  then show "(''process'', e) \<notin> set errs" by auto
next
  fix new db'
  assume "create_box utcnow db body = (Inr new, db')"
  from create_box_Inr [OF this] obtain box where b: "parse_BoxCreate body = Inr box"
    "process new = process box" "iot_boxes db' = iot_boxes db @ [new]"
    by auto
  from parse_BoxCreate_Inr [OF b(1)] obtain w where "body ''process'' = Some (Some w)"
    "process box = validate_process w" by blast
  with b show "\<exists>v. body ''process'' = Some (Some v) \<and> process new = upper v \<and>
           iot_boxes db' = iot_boxes db @ [new]"
    by (simp add: validate_process_upper)
qed

text \<open>The theorem at a request without \<open>process\<close> and at one with the process \<open>etch\<close>.\<close>

theorem create_box_process_witness:
  "(\<exists>errs. create_box clock one_box no_process_request = (Inl (ValidationError errs), one_box) \<and>
           (''process'', MissingRequired) \<in> set errs) \<and>
   create_box clock one_box etch_request =
     (Inr etch_box, \<lparr>iot_boxes = iot_boxes one_box @ [etch_box], auto_increment = 3\<rparr>) \<and>
   (\<exists>v. etch_request ''process'' = Some (Some v) \<and> process etch_box = upper v)"
proof -
  note a = create_box_process [of no_process_request clock one_box, THEN conjunct1, rule_format, OF no_process_absent]
  note b = create_box_process [of etch_request clock one_box, THEN conjunct2, THEN conjunct2, rule_format, OF create_etch]
  from b have "\<exists>v. etch_request ''process'' = Some (Some v) \<and> process etch_box = upper v" by blast
  with a create_etch show ?thesis by blast
qed

text \<open>
  C5 as the specification states it fails: a request whose \<open>process\<close> is the empty string
  is accepted, and the row is stored with an empty process.
\<close>

theorem create_box_empty_process_counterexample:
  "empty_process_request ''process'' = Some (Some []) \<and>
   create_box clock one_box empty_process_request =
     (Inr empty_process_box,
      \<lparr>iot_boxes = iot_boxes one_box @ [empty_process_box], auto_increment = 3\<rparr>) \<and>
   process empty_process_box = []"
  using empty_process_request_process create_empty_process by (simp add: empty_process_box_def)

subsection \<open>C6: normalizing the stored processes\<close>

text \<open>
  Claim C6. \<open>normalize_processes\<close> reports the number of rows whose process was not in
  uppercase; it keeps the number of rows and the autoincrement counter; afterwards the
  process of every row is the uppercase form of what it was; a row whose process was
  already in uppercase is unchanged in every field, \<open>updated_at\<close> included; a row that is
  changed differs from what it was in its process and in \<open>updated_at\<close>, which is a reading
  of the clock; and running the operation again, at any later clock, reports 0 and
  leaves the database as it is.
\<close>

theorem normalize_processes_idempotent:
  assumes "normalize_processes utcnow db = (n, db')"
  shows "n = length (filter needs_upper (iot_boxes db)) \<and>
         length (iot_boxes db') = length (iot_boxes db) \<and>
         auto_increment db' = auto_increment db \<and>
         (\<forall>i<length (iot_boxes db).
            process (iot_boxes db' ! i) = upper (process (iot_boxes db ! i)) \<and>
            (\<not> needs_upper (iot_boxes db ! i) \<longrightarrow> iot_boxes db' ! i = iot_boxes db ! i) \<and>
            (needs_upper (iot_boxes db ! i) \<longrightarrow>
               (\<exists>k<n. iot_boxes db' ! i =
                  (iot_boxes db ! i)\<lparr>process := upper (process (iot_boxes db ! i)),
                                      updated_at := utcnow k\<rparr>))) \<and>
         (\<forall>utcnow'. normalize_processes utcnow' db' = (0, db'))"
proof -
  let ?rows = "iot_boxes db"
  let ?res = "normalize_loop utcnow ?rows 0"
  from assms have n: "n = snd ?res" and db': "db' = db\<lparr>iot_boxes := fst ?res\<rparr>"
    by (auto simp: normalize_processes_def split: prod.splits)
  have count: "n = length (filter needs_upper ?rows)"
    using n by (simp add: normalize_loop_count)
  have len: "length (iot_boxes db') = length ?rows"
    using db' by (simp add: normalize_loop_length)
  have rows: "process (iot_boxes db' ! i) = upper (process (?rows ! i)) \<and>
            (\<not> needs_upper (?rows ! i) \<longrightarrow> iot_boxes db' ! i = ?rows ! i) \<and>
            (needs_upper (?rows ! i) \<longrightarrow>
               (\<exists>k<n. iot_boxes db' ! i =
                  (?rows ! i)\<lparr>process := upper (process (?rows ! i)), updated_at := utcnow k\<rparr>))"
    if i: "i < length ?rows" for i
  proof -
    let ?k = "length (filter needs_upper (take i ?rows))"
    have nth: "iot_boxes db' ! i =
       (if needs_upper (?rows ! i)
        then (?rows ! i)\<lparr>process := upper (process (?rows ! i)), updated_at := utcnow ?k\<rparr>
        else ?rows ! i)"
      using normalize_loop_nth [OF i, of utcnow 0] db' by simp
    have "?k < n" if "needs_upper (?rows ! i)"
    proof -
      have "?rows = take i ?rows @ ?rows ! i # drop (Suc i) ?rows"
        using i by (simp add: id_take_nth_drop)
      then have "filter needs_upper ?rows =
          filter needs_upper (take i ?rows) @ ?rows ! i # filter needs_upper (drop (Suc i) ?rows)"
        using that by (metis filter.simps(2) filter_append)
      then show ?thesis using count by simp
    qed
    with nth show ?thesis by (auto simp: needs_upper_def)
  qed
  have again: "normalize_processes utcnow' db' = (0, db')" for utcnow'
  proof -
    have "\<forall>b \<in> set (iot_boxes db'). \<not> needs_upper b"
      using db' normalize_loop_done by simp
    then have "normalize_loop utcnow' (iot_boxes db') 0 = (iot_boxes db', 0)"
      by (rule normalize_loop_fixed)
    then show ?thesis by (simp add: normalize_processes_def)
  qed
  show ?thesis using count len db' rows again by simp
qed

text \<open>The theorem at three rows of which two are not in uppercase.\<close>

theorem normalize_processes_idempotent_witness:
  "normalize_processes clock mixed_case = (2, mixed_case_normalized) \<and>
   normalize_processes clock mixed_case_normalized = (0, mixed_case_normalized)"
  using normalize_processes_idempotent [OF normalize_mixed_case] normalize_mixed_case by blast

subsection \<open>C7: partial update\<close>

text \<open>
  Claim C7. For every update request that passes validation: when no row has the id, the
  update fails with \<open>NotFound\<close>. Otherwise, when the body gives a MAC address that differs
  (uppercased) from the row's and equals another stored row's, it fails with
  \<open>DuplicateKey\<close>; in both cases the database is left as it was. When the update succeeds,
  every field absent from the body keeps its value, every field present in the body
  holds the body's validated value (an empty string included), \<open>id\<close> and \<open>created_at\<close> are
  unchanged, \<open>updated_at\<close> is the reading of the clock, the row stands in the table in
  place of the old one and every row with another id is as it was. The update succeeds
  whenever the MAC address, if given, is the row's own or not stored, and neither
  \<open>mac_address\<close> nor \<open>process\<close> is given as null.
\<close>

theorem update_box_contract:
  assumes "parse_BoxUpdate body = Inr u"
  shows
    "(find (\<lambda>b. id' b = box_id) (iot_boxes db) = None \<longrightarrow>
        update_box utcnow db box_id body = (Inl (HTTPException NotFound), db)) \<and>
     (\<forall>old. find (\<lambda>b. id' b = box_id) (iot_boxes db) = Some old \<longrightarrow>
        (\<forall>v other. body ''mac_address'' = Some (Some v) \<and> upper v \<noteq> mac_address old \<and>
                   other \<in> set (iot_boxes db) \<and> mac_address other = upper v \<longrightarrow>
           update_box utcnow db box_id body = (Inl (HTTPException DuplicateKey), db)) \<and>
        (\<forall>new db'. update_box utcnow db box_id body = (Inr new, db') \<longrightarrow>
           (\<forall>k \<in> set BoxUpdate_fields.
              getattr new k = (case body k of None \<Rightarrow> getattr old k | Some v \<Rightarrow> validated k v)) \<and>
           id' new = id' old \<and> created_at new = created_at old \<and> updated_at new = utcnow 0 \<and>
           iot_boxes db' = update_row box_id new (iot_boxes db) \<and>
           new \<in> set (iot_boxes db') \<and>
           length (iot_boxes db') = length (iot_boxes db) \<and>
           (\<forall>j<length (iot_boxes db). id' (iot_boxes db ! j) \<noteq> box_id \<longrightarrow>
              iot_boxes db' ! j = iot_boxes db ! j) \<and>
           auto_increment db' = auto_increment db) \<and>
        ((\<forall>v. body ''mac_address'' = Some (Some v) \<longrightarrow>
              upper v = mac_address old \<or> upper v \<notin> mac_address ` set (iot_boxes db)) \<and>
         body ''mac_address'' \<noteq> Some None \<and> body ''process'' \<noteq> Some None \<longrightarrow>
           (\<exists>new db'. update_box utcnow db box_id body = (Inr new, db'))))"
proof (intro conjI impI allI)
  assume "find (\<lambda>b. id' b = box_id) (iot_boxes db) = None"
  then show "update_box utcnow db box_id body = (Inl (HTTPException NotFound), db)"
    using assms by (simp add: update_box_def)
next
  fix old v other
  assume old: "find (\<lambda>b. id' b = box_id) (iot_boxes db) = Some old"
    and h: "body ''mac_address'' = Some (Some v) \<and> upper v \<noteq> mac_address old \<and>
                   other \<in> set (iot_boxes db) \<and> mac_address other = upper v"
  from parse_BoxUpdate_mac [OF assms] h have m: "u ''mac_address'' = Some (Some (upper v))" "upper v \<noteq> []"
    by auto
  have "find (\<lambda>b. Some (mac_address b) = Some (upper v)) (iot_boxes db) \<noteq> None"
    using h by (auto simp: find_None_iff)
  then show "update_box utcnow db box_id body = (Inl (HTTPException DuplicateKey), db)"
    using assms old m h by (simp add: update_box_def attr_def truthy_def)
next
  fix old new db'
  assume old: "find (\<lambda>b. id' b = box_id) (iot_boxes db) = Some old"
    and ok: "update_box utcnow db box_id body = (Inr new, db')"
  from ok assms old have nn: "u ''mac_address'' \<noteq> Some None" "u ''process'' \<noteq> Some None"
    and new: "new = old\<lparr>
                        mac_address := setattr_str (u ''mac_address'') (mac_address old),
                        ip_address := setattr_null (u ''ip_address'') (ip_address old),
                        main_equipment := setattr_null (u ''main_equipment'') (main_equipment old),
                        location := setattr_null (u ''location'') (location old),
                        process := setattr_str (u ''process'') (process old),
                        manager := setattr_null (u ''manager'') (manager old),
                        note' := setattr_null (u ''note'') (note' old),
                        updated_at := utcnow 0\<rparr>"
    and db': "db' = db\<lparr>iot_boxes := update_row box_id new (iot_boxes db)\<rparr>"
    by (auto simp: update_box_def Let_def split: if_splits)
  note uk = parse_BoxUpdate_Inr [OF assms]
  show "\<forall>k \<in> set BoxUpdate_fields.
              getattr new k = (case body k of None \<Rightarrow> getattr old k | Some v \<Rightarrow> validated k v)"
    using nn unfolding new BoxUpdate_fields_def
    by (auto simp: getattr_def uk setattr_str_def setattr_null_def validated_def split: option.splits)
  show "id' new = id' old" "created_at new = created_at old" "updated_at new = utcnow 0"
    by (simp_all add: new)
  show "iot_boxes db' = update_row box_id new (iot_boxes db)" "auto_increment db' = auto_increment db"
    by (simp_all add: db')
  show "new \<in> set (iot_boxes db')"
    using update_row_set [OF old] by (simp add: db')
  show "length (iot_boxes db') = length (iot_boxes db)"
    by (simp add: db' update_row_length)
  show "iot_boxes db' ! j = iot_boxes db ! j"
    if "j < length (iot_boxes db)" "id' (iot_boxes db ! j) \<noteq> box_id" for j
    using that by (simp add: db' update_row_other)
next
  fix old
  assume old: "find (\<lambda>b. id' b = box_id) (iot_boxes db) = Some old"
    and h: "(\<forall>v. body ''mac_address'' = Some (Some v) \<longrightarrow>
              upper v = mac_address old \<or> upper v \<notin> mac_address ` set (iot_boxes db)) \<and>
         body ''mac_address'' \<noteq> Some None \<and> body ''process'' \<noteq> Some None"
  note uk = parse_BoxUpdate_Inr [OF assms]
  have nn: "u ''mac_address'' \<noteq> Some None" "u ''process'' \<noteq> Some None"
    using h by (auto simp: uk validated_def split: option.splits)
  have "\<not> (truthy (attr u ''mac_address'') \<and>
                  attr u ''mac_address'' \<noteq> Some (mac_address old) \<and>
                  find (\<lambda>b. Some (mac_address b) = attr u ''mac_address'') (iot_boxes db) \<noteq> None)"
  proof (cases "body ''mac_address''")
    case None
    then show ?thesis by (simp add: attr_def uk truthy_def)
  next
    case (Some a)
    with h obtain v where v: "body ''mac_address'' = Some (Some v)" by (cases a) auto
    with h have "upper v = mac_address old \<or> upper v \<notin> mac_address ` set (iot_boxes db)" by blast
    moreover have "upper v \<in> mac_address ` set (iot_boxes db)"
      if "find (\<lambda>b. Some (mac_address b) = Some (upper v)) (iot_boxes db) \<noteq> None"
    proof -
      from that obtain x where x: "x \<in> set (iot_boxes db)" "mac_address x = upper v"
        by (auto simp: find_None_iff)
      from x(1) have "mac_address x \<in> mac_address ` set (iot_boxes db)" by (rule imageI)
      with x(2) show ?thesis by simp
    qed
    ultimately show ?thesis
      using v by (auto simp: attr_def uk validated_def)
  qed
  then show "\<exists>new db'. update_box utcnow db box_id body = (Inr new, db')"
    using assms old nn by (simp add: update_box_def Let_def)
qed

text \<open>
  The theorem at an update that clears the location and sets the process, at an id that
  does not exist, and at an update to another box's MAC address.
\<close>

theorem update_box_contract_witness:
  "update_box clock one_box 1 update_request =
     (Inr updated_box, \<lparr>iot_boxes = [updated_box], auto_increment = 2\<rparr>) \<and>
   created_at updated_box = created_at (example_box 1 ''AA:BB:CC:DD:EE:FF'' ''ETCH'' 100) \<and>
   updated_at updated_box = clock 0 \<and>
   update_box clock one_box 9 update_request = (Inl (HTTPException NotFound), one_box) \<and>
   update_box clock five_boxes 1 rename_request = (Inl (HTTPException DuplicateKey), five_boxes)"
proof -
  from parse_update_request obtain u where u: "parse_BoxUpdate update_request = Inr u" ..
  from parse_rename_request obtain w where w: "parse_BoxUpdate rename_request = Inr w" ..
  note ok = update_box_contract [OF u, where box_id = 1 and db = one_box and utcnow = clock,
      THEN conjunct2, rule_format, OF find_one_box(1), THEN conjunct2, THEN conjunct1,
      rule_format, OF update_one_box]
  note nf = update_box_contract [OF u, where box_id = 9 and db = one_box and utcnow = clock,
      THEN conjunct1, rule_format, OF find_one_box(2)]
  note dk = update_box_contract [OF w, where box_id = 1 and db = five_boxes and utcnow = clock,
      THEN conjunct2, rule_format, OF find_five_boxes, THEN conjunct1, rule_format,
      OF rename_collides]
  from ok have "created_at updated_box = created_at (example_box 1 ''AA:BB:CC:DD:EE:FF'' ''ETCH'' 100)"
    "updated_at updated_box = clock 0"
    by blast+
  with update_one_box nf dk show ?thesis by blast
qed

subsection \<open>C8: which strings the MAC validator accepts\<close>

text \<open>
  Claim C8, as amended. For a string that does not end in a line feed, \<open>validate_mac\<close>
  accepts it if and only if it consists of six groups of two hexadecimal digits in which
  each pair of neighbouring groups is separated by \<open>:\<close> or by \<open>-\<close>, the separator being
  chosen anew at each of the five positions; the empty string fails with
  \<open>MissingRequired\<close> and every other rejected string with \<open>InvalidFormat\<close>.
\<close>

theorem validate_mac_accepts_iff:
  assumes "\<not> ends_with_LF v"
  shows "((\<exists>r. validate_mac v = Inr r) \<longleftrightarrow> mac_shape v) \<and>
         (v = [] \<longrightarrow> validate_mac v = Inl MissingRequired) \<and>
         (v \<noteq> [] \<and> \<not> mac_shape v \<longrightarrow> validate_mac v = Inl InvalidFormat)"
proof -
  have "mac_pattern v \<longleftrightarrow> mac_shape v"
  proof
    assume "mac_pattern v"
    then obtain w where w: "mac_shape w" "v = w \<or> v = w @ [LF]"
      unfolding mac_pattern_shape by blast
    with assms have "v = w" by (auto simp: ends_with_LF_def)
    with w show "mac_shape v" by simp
  next
    assume "mac_shape v"
    then show "mac_pattern v" unfolding mac_pattern_shape by blast
  qed
  moreover have "mac_shape v \<Longrightarrow> v \<noteq> []" by (rule mac_shape_nonempty)
  ultimately show ?thesis
    unfolding validate_mac_def by auto
qed

text \<open>
  The theorem at a MAC address with mixed separators, which is accepted, and at a string
  of three groups, which is rejected.
\<close>

theorem validate_mac_accepts_iff_witness:
  "\<not> ends_with_LF ''AA:BB-CC:dd-EE:FF'' \<and> mac_shape ''AA:BB-CC:dd-EE:FF'' \<and>
   (\<exists>r. validate_mac ''AA:BB-CC:dd-EE:FF'' = Inr r) \<and>
   \<not> ends_with_LF ''AA:BB:CC'' \<and> \<not> mac_shape ''AA:BB:CC'' \<and>
   validate_mac ''AA:BB:CC'' = Inl InvalidFormat"
proof -
  have a: "\<not> ends_with_LF ''AA:BB-CC:dd-EE:FF''" "\<not> ends_with_LF ''AA:BB:CC''"
    by (simp_all add: ends_with_LF_def LF_def)
  have b: "mac_shape ''AA:BB-CC:dd-EE:FF''" "\<not> mac_shape ''AA:BB:CC''"
    by (simp_all add: mac_shape_def mac_template_def fits_def is_hex_def is_sep_def)
  show ?thesis
    using a b validate_mac_accepts_iff [OF a(1)] validate_mac_accepts_iff [OF a(2)] by simp
qed

text \<open>
  C8 as the specification states it fails: \<open>AA:BB-CC:DD-EE:FF\<close> mixes the two separators,
  so it is not in the specification's format, and the validator accepts it.
\<close>

theorem validate_mac_mixed_separators_counterexample:
  "validate_mac ''AA:BB-CC:DD-EE:FF'' = Inr ''AA:BB-CC:DD-EE:FF'' \<and>
   \<not> spec_mac_format ''AA:BB-CC:DD-EE:FF''"
  by code_simp

text \<open>The empty string is refused with the validator's first message, not the pattern's.\<close>

lemma validate_mac_empty: "validate_mac [] = Inl MissingRequired"
  by (simp add: validate_mac_def)

text \<open>
  Python's \<open>$\<close> also matches before a final line feed, so an address followed by one line
  feed passes the pattern and is returned with it.
\<close>

lemma validate_mac_trailing_LF:
  "validate_mac (''AA:BB:CC:DD:EE:FF'' @ [LF]) = Inr (''AA:BB:CC:DD:EE:FF'' @ [LF])"
  by code_simp

subsection \<open>C9: the export and the list query\<close>



subsection \<open>C10: an empty filter is no filter\<close>

text \<open>
  Claim C10. In the list and in the export, a search or process parameter that is the
  empty string gives the same result as an absent one. When neither parameter is given
  or both are empty, every stored record matches: \<open>total\<close> is the number of stored
  records, the export holds them all, and the first page of a non-empty store is not
  empty.
\<close>

theorem empty_filter_is_absent:
  fixes page page_size :: int and process :: "string option"
  shows "get_boxes like max_offset order_by db page page_size (Some []) process =
           get_boxes like max_offset order_by db page page_size None process \<and>
         get_boxes like max_offset order_by db page page_size search (Some []) =
           get_boxes like max_offset order_by db page page_size search None \<and>
         export_to_excel strftime like order_by db (Some []) process =
           export_to_excel strftime like order_by db None process \<and>
         export_to_excel strftime like order_by db search (Some []) =
           export_to_excel strftime like order_by db search None \<and>
         (order_by_created_at_desc order_by \<and> \<not> truthy search \<and> \<not> truthy process \<and>
          1 \<le> page_size \<and> page_size \<le> 1000 \<longrightarrow>
            set (export_query like order_by db search process) = set (iot_boxes db) \<and>
            (\<exists>r. get_boxes like max_offset order_by db 1 page_size search process = Inr r \<and>
                 total r = int (length (iot_boxes db)) \<and>
                 (iot_boxes db \<noteq> [] \<longrightarrow> items r \<noteq> [])))"
proof -
  have m1: "matching like db (Some []) process = matching like db None process"
    by (simp add: matching_def search_matches_def)
  have m2: "matching like db search (Some []) = matching like db search None"
    by (simp add: matching_def process_matches_def)
  have g1: "get_boxes like max_offset order_by db page page_size (Some []) process =
           get_boxes like max_offset order_by db page page_size None process"
    by (simp add: get_boxes_def)
  have g2: "get_boxes like max_offset order_by db page page_size search (Some []) =
           get_boxes like max_offset order_by db page page_size search None"
    by (simp add: get_boxes_def)
  have e1: "export_to_excel strftime like order_by db (Some []) process =
           export_to_excel strftime like order_by db None process"
    by (simp add: export_to_excel_def export_query_def)
  have e2: "export_to_excel strftime like order_by db search (Some []) =
           export_to_excel strftime like order_by db search None"
    by (simp add: export_to_excel_def export_query_def)
  have rest: "set (export_query like order_by db search process) = set (iot_boxes db) \<and>
            (\<exists>r. get_boxes like max_offset order_by db 1 page_size search process = Inr r \<and>
                 total r = int (length (iot_boxes db)) \<and>
                 (iot_boxes db \<noteq> [] \<longrightarrow> items r \<noteq> []))"
    if h: "order_by_created_at_desc order_by" "\<not> truthy search" "\<not> truthy process"
      "1 \<le> page_size" "page_size \<le> 1000"
  proof -
    have all: "matching like db search process = iot_boxes db"
      using h(2,3)
      by (auto simp: matching_def search_matches_def process_matches_def truthy_def split: option.splits)
    have len: "length (order_by (iot_boxes db)) = length (iot_boxes db)"
      using h(1) by (rule admissible_length)
    have "set (order_by (iot_boxes db)) = set (iot_boxes db)" using h(1) by (rule admissible_set)
    moreover have "iot_boxes db \<noteq> [] \<Longrightarrow> take (nat page_size) (order_by (iot_boxes db)) \<noteq> []"
      using len h(4) by (cases "order_by (iot_boxes db)") auto
    ultimately show ?thesis
      unfolding export_query_matching get_boxes_valid [OF order_refl h(4,5) get_boxes_page_one_offset] all
      by simp
  qed
  show ?thesis using g1 g2 e1 e2 rest by blast
qed

text \<open>The theorem at the store of five boxes with both parameters empty.\<close>

theorem empty_filter_is_absent_witness:
  "get_boxes sql_like int64_max order_by_scan five_boxes 1 2 (Some []) (Some []) =
     get_boxes sql_like int64_max order_by_scan five_boxes 1 2 None (Some []) \<and>
   (\<exists>r. get_boxes sql_like int64_max order_by_scan five_boxes 1 2 (Some []) (Some []) = Inr r \<and>
        total r = 5 \<and> items r \<noteq> [])"
proof -
  note inst = empty_filter_is_absent [where like = sql_like and max_offset = int64_max
      and order_by = order_by_scan and db = five_boxes and page = 1 and page_size = 2
      and search = "Some []" and process = "Some []"]
  have t: "\<not> truthy (Some [])" by (simp add: truthy_def)
  have n: "iot_boxes five_boxes \<noteq> []" "int (length (iot_boxes five_boxes)) = 5"
    by (simp_all add: five_boxes_def)
  have a: "get_boxes sql_like int64_max order_by_scan five_boxes 1 2 (Some []) (Some []) =
     get_boxes sql_like int64_max order_by_scan five_boxes 1 2 None (Some [])"
    using inst by (rule conjunct1)
  have "order_by_created_at_desc order_by_scan \<and> \<not> truthy (Some []) \<and> \<not> truthy (Some []) \<and>
          (1::int) \<le> 2 \<and> (2::int) \<le> 1000"
    using order_by_scan_admissible t by simp
  with inst [THEN conjunct2, THEN conjunct2, THEN conjunct2, THEN conjunct2]
  obtain r where "get_boxes sql_like int64_max order_by_scan five_boxes 1 2 (Some []) (Some []) = Inr r"
    "total r = int (length (iot_boxes five_boxes))" "iot_boxes five_boxes \<noteq> [] \<longrightarrow> items r \<noteq> []"
    by blast
  with n have "\<exists>r. get_boxes sql_like int64_max order_by_scan five_boxes 1 2 (Some []) (Some []) = Inr r \<and>
        total r = 5 \<and> items r \<noteq> []"
    by auto
  with a show ?thesis by (rule conjI)
qed

end
